theory Spec2Isabelle
  imports Complex_Main "HOL-Library.AList"
begin

section \<open>aiowiki: the edit throttle and token acquisition of \<open>HTTPClient\<close>\<close>

text \<open>
  A shallow embedding of \<^verbatim>\<open>src/aiowiki/http.py\<close>: \<^verbatim>\<open>HTTPClient.get_token\<close>,
  \<^verbatim>\<open>HTTPClient.modify_page\<close> and its two callers \<^verbatim>\<open>edit_page\<close> and \<^verbatim>\<open>move_page\<close>,
  with \<^verbatim>\<open>Page.edit\<close> and \<^verbatim>\<open>Page.move\<close> of \<^verbatim>\<open>src/aiowiki/page.py\<close>, which build the
  dicts these are called with. A coroutine is modelled as one sequential run: the
  function takes the client and the world and returns the outcome together with the
  client and the world after the call. What other tasks do while the coroutine is
  suspended is not modelled.
\<close>

subsection \<open>Values\<close>

text \<open>
  What \<^verbatim>\<open>await r.json()\<close> yields: \<^verbatim>\<open>None\<close>, a bool, an int, a float, a str, a list or
  a dict with string keys. A dict is the list of its items in insertion order, read with
  \<open>map_of\<close>. A float is kept as the real number it denotes (a NaN or an infinity behaves
  in this code like any non-zero float: it is truthy and cannot be subscripted).
\<close>

datatype json =
    JNull
  | JBool bool
  | JInt int
  | JFloat real
  | JStr string
  | JArr "json list"
  | JObj "(string \<times> json) list"

type_synonym fields = "(string \<times> json) list"

text \<open>
  The exceptions that leave the modelled code. \<open>ClientError\<close> stands for whatever
  the HTTP session raises (connection failure, body that is not JSON); the code never
  catches it, and nothing else raises it.
\<close>

datatype error =
    TokenGetError json
  | EditError json
  | KeyError string
  | TypeError
  | AttributeError
  | ClientError

text \<open>Python's \<^verbatim>\<open>bool(x)\<close>, as the \<^verbatim>\<open>if\<close> of line 189 applies it.\<close>

fun truthy :: "json \<Rightarrow> bool" where
  "truthy JNull = False"
| "truthy (JBool b) = b"
| "truthy (JInt i) = (i \<noteq> 0)"
| "truthy (JFloat x) = (x \<noteq> 0)"
| "truthy (JStr s) = (s \<noteq> [])"
| "truthy (JArr xs) = (xs \<noteq> [])"
| "truthy (JObj kvs) = (kvs \<noteq> [])"

text \<open>
  \<^verbatim>\<open>x[k]\<close> for a string key \<open>k\<close>: a dict raises KeyError when the key is missing;
  a list or a str raises TypeError (indices must be integers); \<^verbatim>\<open>None\<close>, a bool and a
  number raise TypeError (not subscriptable).
\<close>

fun getitem :: "json \<Rightarrow> string \<Rightarrow> error + json" where
  "getitem (JObj kvs) k = (case map_of kvs k of None \<Rightarrow> Inl (KeyError k) | Some v \<Rightarrow> Inr v)"
| "getitem _ k = Inl TypeError"

text \<open>
  \<^verbatim>\<open>x.get(k)\<close>: on a dict the value, or \<^verbatim>\<open>None\<close> when the key is missing; any other
  parsed value has no attribute \<^verbatim>\<open>get\<close>.
\<close>

fun dict_get :: "json \<Rightarrow> string \<Rightarrow> error + json" where
  "dict_get (JObj kvs) k = (case map_of kvs k of None \<Rightarrow> Inr JNull | Some v \<Rightarrow> Inr v)"
| "dict_get _ k = Inl AttributeError"

subsection \<open>Floats\<close>

text \<open>
  The clock of the event loop and \<^verbatim>\<open>last_edit\<close> are Python floats, IEEE 754 doubles.
  A double is kept as the real number it denotes, and an operation on doubles is the
  exact operation followed by \<open>double\<close>, the rounding to the nearest double, a tie
  going to the even significand. \<open>quantum x\<close> is the exponent of the spacing of the
  doubles around \<open>x\<close>: 53 significant bits, and \<open>2 powi (- 1074)\<close> for the subnormal
  ones. Overflow to infinity (magnitudes of \<open>2 ^ 1024\<close> and more) is left out.
\<close>

definition round_even :: "real \<Rightarrow> int" where
  "round_even y =
     (let n = \<lfloor>y\<rfloor>; f = y - of_int n
      in if f < 1 / 2 then n
         else if 1 / 2 < f then n + 1
         else if even n then n else n + 1)"

definition quantum :: "real \<Rightarrow> int" where
  "quantum x = max (\<lfloor>log 2 \<bar>x\<bar>\<rfloor> - 52) (- 1074)"

definition double :: "real \<Rightarrow> real" where
  "double x =
     (if x = 0 then 0
      else of_int (round_even (x / 2 powi quantum x)) * 2 powi quantum x)"

text \<open>\<^verbatim>\<open>a - b\<close> on floats (an int operand, 0 or 10 here, converts exactly).\<close>

definition fsub :: "real \<Rightarrow> real \<Rightarrow> real" where
  "fsub a b = double (a - b)"

subsection \<open>The world and the client\<close>

text \<open>
  What a call does to its surroundings, in order. \<open>Sleep d\<close> is \<^verbatim>\<open>asyncio.sleep(d)\<close>,
  \<open>Get u\<close> a GET of \<open>u\<close> through the session, \<open>Post u d\<close> a POST of the form fields
  \<open>d\<close> to \<open>u\<close>, \<open>Print d a\<close> the line printed before a wait of \<open>d\<close> seconds for action
  \<open>a\<close>, \<open>Acquire\<close> and \<open>Release\<close> the entry to and the exit from
  \<^verbatim>\<open>async with self.lock_edit\<close>.
\<close>

datatype event =
    Acquire
  | Release
  | Print real string
  | Sleep real
  | Get string
  | Post string fields

text \<open>
  The world: \<open>clock\<close> is what \<^verbatim>\<open>asyncio.get_event_loop().time()\<close> returns now
  (a float, kept as a real), \<open>elapse ev\<close> the time that passes while the coroutine is
  suspended in \<open>ev\<close>, \<open>heap\<close> the dict objects by reference, \<open>trace\<close> the events so
  far, oldest first.
\<close>

type_synonym ref = nat

record world =
  clock :: real
  elapse :: "event \<Rightarrow> real"
  heap :: "ref \<Rightarrow> fields"
  trace :: "event list"

text \<open>
  The aiohttp session, seen from the client: the parsed body of the response to a GET
  and to a POST; \<open>None\<close> when the transport raises instead.
\<close>

record session =
  get :: "string \<Rightarrow> json option"
  post :: "string \<Rightarrow> fields \<Rightarrow> json option"

text \<open>\<^verbatim>\<open>HTTPClient\<close>; \<open>lock_edit\<close> holds whether the \<^verbatim>\<open>asyncio.Lock\<close> is locked.\<close>

record HTTPClient =
  url :: string
  session :: session
  logged_in :: bool
  lock_edit :: bool
  last_edit :: real

definition THROTTLE :: real where
  "THROTTLE = 10"

text \<open>The Python literal \<^verbatim>\<open>"+\\"\<close>: a plus sign and one backslash.\<close>

definition anon_token :: string where
  "anon_token = [CHR ''+'', CHR 0x5C]"

text \<open>\<^verbatim>\<open>HTTPClient.__init__\<close>: the lock is created unlocked, the timestamp is 0.\<close>

definition init :: "string \<Rightarrow> session \<Rightarrow> bool \<Rightarrow> HTTPClient" where
  "init u s l = \<lparr>url = u, session = s, logged_in = l, lock_edit = False, last_edit = 0\<rparr>"

text \<open>An event that does not suspend the coroutine: no time passes.\<close>

definition emit :: "event \<Rightarrow> world \<Rightarrow> world" where
  "emit ev w = w\<lparr>trace := trace w @ [ev]\<rparr>"

text \<open>An event the coroutine awaits: the clock advances by the time it takes.\<close>

definition await :: "event \<Rightarrow> world \<Rightarrow> world" where
  "await ev w = w\<lparr>clock := clock w + elapse w ev, trace := trace w @ [ev]\<rparr>"

text \<open>
  \<^verbatim>\<open>d[k] = v\<close> on the dict object at reference \<open>r\<close>: an existing key keeps its place,
  a new key goes to the end.
\<close>

definition setitem :: "ref \<Rightarrow> string \<Rightarrow> json \<Rightarrow> world \<Rightarrow> world" where
  "setitem r k v w = w\<lparr>heap := (heap w)(r := AList.update k v (heap w r))\<rparr>"

subsection \<open>\<^verbatim>\<open>get_token\<close>\<close>

text \<open>
  Line 30, the body of the \<^verbatim>\<open>try\<close>: \<^verbatim>\<open>data["query"]["tokens"][f"{type}token"]\<close>,
  read from left to right; the first subscript that raises ends it.
\<close>

definition token_path :: "string \<Rightarrow> json \<Rightarrow> error + json" where
  "token_path type' data =
     (case getitem data ''query'' of
        Inl e \<Rightarrow> Inl e
      | Inr q \<Rightarrow>
          (case getitem q ''tokens'' of
             Inl e \<Rightarrow> Inl e
           | Inr t \<Rightarrow> getitem t (type' @ ''token'')))"

text \<open>\<^verbatim>\<open>data["error"]["info"]\<close>, the argument of the raise in lines 32 and 190.\<close>

definition error_info :: "json \<Rightarrow> error + json" where
  "error_info data =
     (case getitem data ''error'' of
        Inl e \<Rightarrow> Inl e
      | Inr err \<Rightarrow> getitem err ''info'')"

text \<open>
  Lines 29 to 32: only a KeyError of the \<^verbatim>\<open>try\<close> body is caught; the handler raises
  \<^verbatim>\<open>TokenGetError(data["error"]["info"])\<close>, whose argument is evaluated first and can
  itself raise.
\<close>

definition token_of_response :: "string \<Rightarrow> json \<Rightarrow> error + json" where
  "token_of_response type' data =
     (case token_path type' data of
        Inr tok \<Rightarrow> Inr tok
      | Inl (KeyError k) \<Rightarrow>
          (case error_info data of
             Inl e \<Rightarrow> Inl e
           | Inr info \<Rightarrow> Inl (TokenGetError info))
      | Inl e \<Rightarrow> Inl e)"

definition token_url :: "string \<Rightarrow> string \<Rightarrow> string" where
  "token_url u type' = u @ ''?action=query&meta=tokens&type='' @ type' @ ''&format=json''"

definition get_token :: "HTTPClient \<Rightarrow> string \<Rightarrow> world \<Rightarrow> (error + json) \<times> HTTPClient \<times> world" where
  "get_token self type' w =
     (let u = token_url (url self) type';
          w1 = await (Get u) w
      in (case get (session self) u of
            None \<Rightarrow> (Inl ClientError, self, w1)
          | Some data \<Rightarrow> (token_of_response type' data, self, w1)))"

subsection \<open>\<^verbatim>\<open>modify_page\<close>\<close>

text \<open>Lines 189 to 191: the truthiness test on \<^verbatim>\<open>data.get("error")\<close>, then the raise.\<close>

definition edit_result :: "json \<Rightarrow> error + bool" where
  "edit_result data =
     (case dict_get data ''error'' of
        Inl e \<Rightarrow> Inl e
      | Inr flag \<Rightarrow>
          (if truthy flag then
             (case error_info data of
                Inl e \<Rightarrow> Inl e
              | Inr info \<Rightarrow> Inl (EditError info))
           else Inr True))"

text \<open>
  The lock is released on every way out of the \<^verbatim>\<open>async with\<close> block, the raising ones
  included.
\<close>

definition leave :: "'a \<Rightarrow> HTTPClient \<Rightarrow> world \<Rightarrow> ('a \<times> HTTPClient \<times> world) option" where
  "leave r self w = Some (r, self\<lparr>lock_edit := False\<rparr>, emit Release w)"

text \<open>
  \<open>json\<close> is the reference of the caller's dict. A call that finds the lock taken waits
  for another task to release it; in a single sequential run nobody does, and the call
  does not return: \<open>None\<close>.
\<close>

definition modify_page ::
  "HTTPClient \<Rightarrow> string \<Rightarrow> ref \<Rightarrow> world \<Rightarrow> ((error + bool) \<times> HTTPClient \<times> world) option" where
  "modify_page self action json w =
     (if lock_edit self then None
      else
        let self1 = self\<lparr>lock_edit := True\<rparr>;
            w1 = emit Acquire w;
            time = fsub (clock w1) (last_edit self1);
            w2 = (if time < THROTTLE
                  then await (Sleep (fsub THROTTLE time))
                         (emit (Print (fsub THROTTLE time) action) w1)
                  else w1);
            self2 = self1\<lparr>last_edit := clock w2\<rparr>;
            (got, self3, w3) =
              (if logged_in self2 then get_token self2 ''csrf'' w2
               else (Inr (JStr anon_token), self2, w2))
        in (case got of
             Inl e \<Rightarrow> leave (Inl e) self3 w3
           | Inr token \<Rightarrow>
               (let w4 = setitem json ''action'' (JStr action) w3;
                    w5 = setitem json ''format'' (JStr ''json'') w4;
                    w6 = setitem json ''token'' token w5;
                    w7 = await (Post (url self3) (heap w6 json)) w6
                in (case post (session self3) (url self3) (heap w6 json) of
                      None \<Rightarrow> leave (Inl ClientError) self3 w7
                    | Some data \<Rightarrow> leave (edit_result data) self3 w7))))"

text \<open>
  \<^verbatim>\<open>edit_page\<close> and \<^verbatim>\<open>move_page\<close> await \<^verbatim>\<open>modify_page\<close> and drop its value: they
  return \<^verbatim>\<open>None\<close>.
\<close>

definition edit_page ::
  "HTTPClient \<Rightarrow> ref \<Rightarrow> world \<Rightarrow> ((error + unit) \<times> HTTPClient \<times> world) option" where
  "edit_page self json w =
     (case modify_page self ''edit'' json w of
        None \<Rightarrow> None
      | Some (r, self', w') \<Rightarrow> Some (map_sum id (\<lambda>_. ()) r, self', w'))"

definition move_page ::
  "HTTPClient \<Rightarrow> ref \<Rightarrow> world \<Rightarrow> ((error + unit) \<times> HTTPClient \<times> world) option" where
  "move_page self json w =
     (case modify_page self ''move'' json w of
        None \<Rightarrow> None
      | Some (r, self', w') \<Rightarrow> Some (map_sum id (\<lambda>_. ()) r, self', w'))"

subsection \<open>\<^verbatim>\<open>Page.edit\<close> and \<^verbatim>\<open>Page.move\<close>\<close>

text \<open>
  \<^verbatim>\<open>page.py\<close>, lines 97 to 109. \<open>http\<close> is \<^verbatim>\<open>self.wiki.http\<close>, \<open>title\<close> is
  \<^verbatim>\<open>self.title\<close>, and \<open>r\<close> is the reference at which the new dict is created. Both
  methods return \<^verbatim>\<open>True\<close> unless the call they await raises.
\<close>

definition Page_edit ::
  "HTTPClient \<Rightarrow> string \<Rightarrow> string \<Rightarrow> string \<Rightarrow> ref \<Rightarrow> world \<Rightarrow>
     ((error + bool) \<times> HTTPClient \<times> world) option" where
  "Page_edit http title content summary r w =
     (let json = [(''title'', JStr title), (''text'', JStr content), (''summary'', JStr summary)];
          w1 = w\<lparr>heap := (heap w)(r := json)\<rparr>
      in (case edit_page http r w1 of
            None \<Rightarrow> None
          | Some (res, http', w') \<Rightarrow>
              (case res of
                 Inl e \<Rightarrow> Some (Inl e, http', w')
               | Inr u \<Rightarrow> Some (Inr True, http', w'))))"

definition Page_move ::
  "HTTPClient \<Rightarrow> string \<Rightarrow> string \<Rightarrow> string \<Rightarrow> bool \<Rightarrow> ref \<Rightarrow> world \<Rightarrow>
     ((error + bool) \<times> HTTPClient \<times> world) option" where
  "Page_move http title target reason redirect r w =
     (let json = [(''from'', JStr title), (''to'', JStr target), (''reason'', JStr reason),
                  (''movetalk'', JStr '''')];
          json' = (if \<not> redirect then AList.update ''noredirect'' (JStr '''') json else json);
          w1 = w\<lparr>heap := (heap w)(r := json')\<rparr>
      in (case move_page http r w1 of
            None \<Rightarrow> None
          | Some (res, http', w') \<Rightarrow>
              (case res of
                 Inl e \<Rightarrow> Some (Inl e, http', w')
               | Inr u \<Rightarrow> Some (Inr True, http', w'))))"

subsection \<open>Observing a call\<close>

text \<open>The events of a call that takes the world \<open>w\<close> to \<open>w'\<close>.\<close>

definition events_since :: "world \<Rightarrow> world \<Rightarrow> event list" where
  "events_since w w' = drop (length (trace w)) (trace w')"

subsection \<open>Concrete sessions and worlds\<close>

text \<open>
  A session that answers every GET with the parsed body \<open>g\<close> and every POST with
  \<open>p\<close>.
\<close>

definition answering :: "json \<Rightarrow> json \<Rightarrow> session" where
  "answering g p = \<lparr>get = (\<lambda>u. Some g), post = (\<lambda>u d. Some p)\<rparr>"

text \<open>\<^verbatim>\<open>{"batchcomplete": "", "query": {"tokens": {"csrftoken": "6f1d"}}}\<close>\<close>

definition tokens_body :: json where
  "tokens_body =
     JObj [(''batchcomplete'', JStr ''''),
           (''query'', JObj [(''tokens'', JObj [(''csrftoken'', JStr ''6f1d'')])])]"

text \<open>\<^verbatim>\<open>{"edit": {"result": "Success"}}\<close>\<close>

definition success_body :: json where
  "success_body = JObj [(''edit'', JObj [(''result'', JStr ''Success'')])]"

text \<open>\<^verbatim>\<open>{"error": {"info": "permissiondenied"}}\<close>\<close>

definition denied_body :: json where
  "denied_body = JObj [(''error'', JObj [(''info'', JStr ''permissiondenied'')])]"

text \<open>\<^verbatim>\<open>{"batchcomplete": "", "query": {"tokens": {}}}\<close>: no token, and no error entry.\<close>

definition no_token_body :: json where
  "no_token_body = JObj [(''batchcomplete'', JStr ''''), (''query'', JObj [(''tokens'', JObj [])])]"

text \<open>The dict that \<^verbatim>\<open>Page.edit\<close> builds (\<^verbatim>\<open>page.py\<close>, line 99).\<close>

definition page_fields :: fields where
  "page_fields = [(''title'', JStr ''Main''), (''text'', JStr ''hello''), (''summary'', JStr '''')]"

text \<open>
  A world in which a sleep lasts half a second longer than asked, a GET takes one second
  and a POST two; the clock stands at 3, and reference 0 holds the dict of
  \<^verbatim>\<open>Page.edit\<close>.
\<close>

definition lag :: "event \<Rightarrow> real" where
  "lag ev = (case ev of Sleep d \<Rightarrow> d + 1 / 2 | Get u \<Rightarrow> 1 | Post u d \<Rightarrow> 2 | _ \<Rightarrow> 0)"

definition world0 :: world where
  "world0 = \<lparr>clock = 3, elapse = lag, heap = (\<lambda>r. [])(0 := page_fields), trace = []\<rparr>"



definition t10_4 :: real where
  "t10_4 = 5854679515581645 / 2 ^ 49"

definition t20_4 :: real where
  "t20_4 = 5742089524897382 / 2 ^ 48"

section \<open>Properties\<close>

subsection \<open>Rounding to a double\<close>


lemma round_even_of_int [simp]: "round_even (of_int n) = n"
  by (simp add: round_even_def)


lemma two_powr_int: "(2::real) powr real_of_int k = 2 powi k"
  by (rule powr_real_of_int') simp_all

lemma floor_log2_iff:
  assumes "0 < x"
  shows "(\<lfloor>log 2 x\<rfloor> = n) = (2 powi n \<le> x \<and> x < 2 powi (n + 1))"
proof -
  have "(\<lfloor>log 2 x\<rfloor> = n) =
          (2 powr real_of_int n \<le> x \<and> x < 2 powr real_of_int (n + 1))"
    using assms by (rule floor_log_eq_powr_iff) simp
  then show ?thesis
    unfolding two_powr_int .
qed

lemma floor_log2_eq:
  assumes "2 powi n \<le> x" "x < 2 powi (n + 1)"
  shows "\<lfloor>log 2 x\<rfloor> = n"
proof -
  have "0 < (2::real) powi n"
    by simp
  with assms(1) have "0 < x"
    by linarith
  with assms show ?thesis
    by (simp add: floor_log2_iff)
qed

lemma floor_log2_bounds:
  assumes "0 < x"
  shows "2 powi \<lfloor>log 2 x\<rfloor> \<le> x" and "x < 2 powi (\<lfloor>log 2 x\<rfloor> + 1)"
  using floor_log2_iff [OF assms, of "\<lfloor>log 2 x\<rfloor>"] by simp_all

lemma quantum_eq:
  assumes "2 powi n \<le> \<bar>x\<bar>" "\<bar>x\<bar> < 2 powi (n + 1)"
  shows "quantum x = max (n - 52) (- 1074)"
  using floor_log2_eq [OF assms] by (simp add: quantum_def)






lemma double_exact:
  assumes x: "x = of_int m * 2 powi e" and m: "\<bar>m\<bar> < 2 ^ 53" and e: "- 1074 \<le> e"
  shows "double x = x"
proof (cases "x = 0")
  case True
  then show ?thesis by (simp add: double_def)
next
  case False
  define n where "n = \<lfloor>log 2 \<bar>x\<bar>\<rfloor>"
  define q where "q = quantum x"
  have pos: "0 < \<bar>x\<bar>" using False by simp
  have lo: "(2::real) powi n \<le> \<bar>x\<bar>"
    unfolding n_def using pos by (rule floor_log2_bounds)
  have "\<bar>x\<bar> = of_int \<bar>m\<bar> * 2 powi e"
    by (simp add: x abs_mult)
  also have "\<dots> < of_int (2 ^ 53) * 2 powi e"
    using m by (intro mult_strict_right_mono) (simp_all del: of_int_power)
  also have "\<dots> = 2 powi (53 + e)"
    by (simp add: power_int_add)
  finally have lt: "(2::real) powi n < 2 powi (53 + e)"
    using lo by linarith
  have ne: "n < 53 + e"
  proof (rule ccontr)
    assume "\<not> n < 53 + e"
    then have "(2::real) powi (53 + e) \<le> 2 powi n"
      by (intro power_int_increasing) simp_all
    with lt show False by simp
  qed
  have "q = max (n - 52) (- 1074)"
    by (simp add: q_def quantum_def n_def)
  with ne e have qe: "q \<le> e"
    by simp
  have "x / 2 powi q = of_int m * 2 powi (e - q)"
    by (simp add: x power_int_diff)
  also have "\<dots> = of_int (m * 2 ^ nat (e - q))"
    using qe by (simp add: power_int_nonneg_exp)
  finally have "round_even (x / 2 powi q) = m * 2 ^ nat (e - q)"
    by (simp only: round_even_of_int)
  then have "double x = of_int (m * 2 ^ nat (e - q)) * 2 powi q"
    using False by (simp add: double_def q_def del: of_int_mult of_int_power)
  also have "\<dots> = of_int m * (2 powi (e - q) * 2 powi q)"
    using qe by (simp add: power_int_nonneg_exp)
  also have "2 powi (e - q) * 2 powi q = (2::real) powi e"
    by (simp add: power_int_add [symmetric])
  finally show ?thesis
    by (simp add: x)
qed

lemma double_int:
  assumes "\<bar>m\<bar> < 2 ^ 53"
  shows "double (of_int m) = of_int m"
  using double_exact [of "of_int m" m 0] assms by simp

lemma double_numeral [simp]:
  "numeral k < (2::int) ^ 53 \<Longrightarrow> double (numeral k) = numeral k"
  using double_int [of "numeral k"] by simp

lemma double_0 [simp]: "double 0 = 0"
  by (simp add: double_def)

text \<open>The doubles that Python prints as 0.1, 10.4 and 20.4.\<close>

lemma double_tenth: "double (1 / 10) = 3602879701896397 / 2 ^ 55"
proof -
  have q: "quantum (1 / 10) = - 56"
    using quantum_eq [of "- 4" "1 / 10"] by (simp add: power_int_minus_divide)
  show ?thesis
    by (simp add: double_def q round_even_def power_int_minus_divide)
qed

lemma double_10_4: "double (52 / 5) = t10_4"
proof -
  have q: "quantum (52 / 5) = - 49"
    using quantum_eq [of 3 "52 / 5"] by simp
  show ?thesis
    by (simp add: double_def q round_even_def power_int_minus_divide t10_4_def)
qed

lemma double_20_4: "double (102 / 5) = t20_4"
proof -
  have q: "quantum (102 / 5) = - 48"
    using quantum_eq [of 4 "102 / 5"] by simp
  show ?thesis
    by (simp add: double_def q round_even_def power_int_minus_divide t20_4_def)
qed

subsection \<open>How the parts of the world change, and what the steps can raise\<close>

lemma emit_sel [simp]:
  "clock (emit ev w) = clock w" "elapse (emit ev w) = elapse w"
  "heap (emit ev w) = heap w" "trace (emit ev w) = trace w @ [ev]"
  by (simp_all add: emit_def)

lemma await_sel [simp]:
  "clock (await ev w) = clock w + elapse w ev" "elapse (await ev w) = elapse w"
  "heap (await ev w) = heap w" "trace (await ev w) = trace w @ [ev]"
  by (simp_all add: await_def)

lemma setitem_sel [simp]:
  "clock (setitem r k v w) = clock w" "elapse (setitem r k v w) = elapse w"
  "heap (setitem r k v w) = (heap w)(r := AList.update k v (heap w r))"
  "trace (setitem r k v w) = trace w"
  by (simp_all add: setitem_def)

lemma getitem_error: "getitem v k = Inl e \<Longrightarrow> e = KeyError k \<or> e = TypeError"
  by (cases v) (auto split: option.splits)

lemma token_path_error:
  "token_path ty data = Inl e \<Longrightarrow> (\<exists>k. e = KeyError k) \<or> e = TypeError"
  by (auto simp add: token_path_def split: sum.splits dest: getitem_error)

lemma error_info_error:
  "error_info data = Inl e \<Longrightarrow> (\<exists>k. e = KeyError k) \<or> e = TypeError"
  by (auto simp add: error_info_def split: sum.splits dest: getitem_error)

lemma token_of_response_error:
  "token_of_response ty data = Inl e \<Longrightarrow>
     (\<exists>k. e = KeyError k) \<or> e = TypeError \<or> (\<exists>info. e = TokenGetError info)"
  by (auto simp add: token_of_response_def split: sum.splits error.splits
      dest: token_path_error error_info_error)

lemma get_token_eq:
  "get_token self ty w =
     ((case get (session self) (token_url (url self) ty) of
         None \<Rightarrow> Inl ClientError | Some data \<Rightarrow> token_of_response ty data),
      self, await (Get (token_url (url self) ty)) w)"
  by (simp add: get_token_def Let_def split: option.splits)

lemma get_token_error:
  "fst (get_token self ty w) = Inl e \<Longrightarrow>
     e = ClientError \<or> (\<exists>k. e = KeyError k) \<or> e = TypeError \<or> (\<exists>info. e = TokenGetError info)"
  by (auto simp add: get_token_eq split: option.splits dest: token_of_response_error)

lemma edit_result_obj:
  "edit_result (JObj kvs) =
     (case map_of kvs ''error'' of
        None \<Rightarrow> Inr True
      | Some err \<Rightarrow>
          if truthy err
          then (case getitem err ''info'' of Inl e \<Rightarrow> Inl e | Inr info \<Rightarrow> Inl (EditError info))
          else Inr True)"
  by (simp add: edit_result_def error_info_def split: option.splits sum.splits)

lemma modify_page_locked: "lock_edit self \<Longrightarrow> modify_page self action json w = None"
  by (simp add: modify_page_def)

lemma modify_page_returns:
  "\<not> lock_edit self \<Longrightarrow> \<exists>r self' w'. modify_page self action json w = Some (r, self', w')"
  by (simp add: modify_page_def Let_def get_token_eq leave_def split: sum.splits option.splits)

lemma modify_page_client:
  assumes "modify_page self action json w = Some (r, self', w')"
  shows "\<not> lock_edit self"
    and "self' = self\<lparr>last_edit := clock w +
            (if fsub (clock w) (last_edit self) < THROTTLE
             then elapse w (Sleep (fsub THROTTLE (fsub (clock w) (last_edit self)))) else 0)\<rparr>"
  using assms
  by (auto simp add: modify_page_def Let_def get_token_eq leave_def
      split: if_splits sum.splits option.splits)

lemma modify_page_frame:
  assumes "modify_page self action json w = Some (r, self', w')"
  shows "elapse w' = elapse w" and "r' \<noteq> json \<Longrightarrow> heap w' r' = heap w r'"
  using assms
  by (auto simp add: modify_page_def Let_def get_token_eq leave_def
      split: if_splits sum.splits option.splits)

lemma modify_page_events:
  assumes "modify_page self action json w = Some (r, self', w')"
  shows "\<exists>tail. events_since w w' =
           Acquire #
           (if fsub (clock w) (last_edit self) < THROTTLE
            then [Print (fsub THROTTLE (fsub (clock w) (last_edit self))) action,
                  Sleep (fsub THROTTLE (fsub (clock w) (last_edit self)))] else []) @
           (if logged_in self then [Get (token_url (url self) ''csrf'')] else []) @ tail
         \<and> ((tail = [Release] \<and> heap w' = heap w \<and> logged_in self \<and>
              (\<exists>e. r = Inl e \<and> fst (get_token self ''csrf'' w) = Inl e))
           \<or> (\<exists>tok. tail = [Post (url self) (heap w' json), Release] \<and>
                 heap w' = (heap w)(json := AList.update ''token'' tok
                    (AList.update ''format'' (JStr ''json'')
                      (AList.update ''action'' (JStr action) (heap w json)))) \<and>
                 (if logged_in self
                  then fst (get_token self ''csrf'' w) = Inr tok
                  else tok = JStr anon_token) \<and>
                 r = (case post (session self) (url self) (heap w' json) of
                        None \<Rightarrow> Inl ClientError | Some data \<Rightarrow> edit_result data)))"
  using assms
  by (auto simp add: modify_page_def Let_def get_token_eq leave_def events_since_def
      split: if_splits sum.splits option.splits)

lemma modify_page_submission:
  assumes run: "modify_page self action json w = Some (r, self', w')"
      and sent: "Post u d \<in> set (events_since w w')"
  shows "u = url self" and "d = heap w' json"
    and "\<exists>tok. heap w' json = AList.update ''token'' tok
                    (AList.update ''format'' (JStr ''json'')
                      (AList.update ''action'' (JStr action) (heap w json)))"
    and "r = (case post (session self) (url self) (heap w' json) of
                None \<Rightarrow> Inl ClientError | Some data \<Rightarrow> edit_result data)"
  using modify_page_events [OF run] sent
  by (auto split: if_splits)

lemma modify_page_reached_submission:
  assumes run: "modify_page self action json w = Some (r, self', w')"
      and res: "r = Inr True \<or> r = Inl (EditError x)"
  shows "Post (url self) (heap w' json) \<in> set (events_since w w')"
  using modify_page_events [OF run] res
  by (auto dest: get_token_error)

text \<open>
  The lock is taken first and released last, on every way out, and the client is left
  with the lock free.
\<close>

lemma modify_page_lock_released:
  assumes run: "modify_page self action json w = Some (r, self', w')"
  shows "\<not> lock_edit self'" and "hd (events_since w w') = Acquire"
    and "last (events_since w w') = Release"
proof -
  from modify_page_client [OF run] show "\<not> lock_edit self'"
    by simp
  from modify_page_events [OF run]
  show "hd (events_since w w') = Acquire" and "last (events_since w w') = Release"
    by auto
qed

subsection \<open>The callers\<close>

text \<open>
  \<^verbatim>\<open>edit_page\<close> and \<^verbatim>\<open>move_page\<close> are \<^verbatim>\<open>modify_page\<close> with the action fixed. When
  \<^verbatim>\<open>Page.edit\<close> returns or raises EditError, the dict it built holds its three fields
  followed by the three injected ones.
\<close>

lemma edit_page_eq:
  "edit_page self json w =
     map_option (\<lambda>(r, self', w'). (map_sum id (\<lambda>_. ()) r, self', w'))
       (modify_page self ''edit'' json w)"
  by (simp add: edit_page_def split: option.splits)

lemma move_page_eq:
  "move_page self json w =
     map_option (\<lambda>(r, self', w'). (map_sum id (\<lambda>_. ()) r, self', w'))
       (modify_page self ''move'' json w)"
  by (simp add: move_page_def split: option.splits)

lemma edit_result_Inr: "edit_result data = Inr b \<Longrightarrow> b = True"
  by (auto simp add: edit_result_def split: sum.splits if_splits)

lemma modify_page_Inr:
  assumes run: "modify_page self action json w = Some (Inr b, self', w')"
  shows "b = True"
proof -
  from modify_page_events [OF run]
  have "Inr b = (case post (session self) (url self) (heap w' json) of
                   None \<Rightarrow> Inl ClientError | Some data \<Rightarrow> edit_result data)"
    by auto
  then show ?thesis
    by (cases "post (session self) (url self) (heap w' json)")
      (auto dest: edit_result_Inr [OF sym])
qed

lemma Page_edit_eq:
  "Page_edit http title content summary r w =
     map_option
       (\<lambda>(res, http', w'). (case res of Inl e \<Rightarrow> Inl e | Inr u \<Rightarrow> Inr True, http', w'))
       (modify_page http ''edit'' r
          (w\<lparr>heap := (heap w)(r := [(''title'', JStr title), (''text'', JStr content),
                                       (''summary'', JStr summary)])\<rparr>))"
  by (auto simp add: Page_edit_def edit_page_eq Let_def split: option.splits sum.splits)

lemma Page_edit_dict:
  assumes run: "Page_edit http title content summary r w = Some (res, http', w')"
      and res: "res = Inr True \<or> res = Inl (EditError x)"
  shows "\<exists>tok. heap w' r =
           [(''title'', JStr title), (''text'', JStr content), (''summary'', JStr summary),
            (''action'', JStr ''edit''), (''format'', JStr ''json''), (''token'', tok)]"
proof -
  let ?w1 = "w\<lparr>heap := (heap w)(r := [(''title'', JStr title), (''text'', JStr content),
                                         (''summary'', JStr summary)])\<rparr>"
  from run [unfolded Page_edit_eq] obtain res' where
    inner: "modify_page http ''edit'' r ?w1 = Some (res', http', w')" and
    rel: "res = (case res' of Inl e \<Rightarrow> Inl e | Inr u \<Rightarrow> Inr True)"
    by auto
  have same: "res' = Inr True \<or> res' = Inl (EditError x)"
  proof (cases res')
    case (Inl e)
    with rel res show ?thesis by simp
  next
    case (Inr b)
    from inner [unfolded Inr] have "b = True" by (rule modify_page_Inr)
    with Inr show ?thesis by simp
  qed
  have sent: "Post (url http) (heap w' r) \<in> set (events_since ?w1 w')"
    using inner same by (rule modify_page_reached_submission)
  from modify_page_submission(3) [OF inner sent]
  show ?thesis
    by simp
qed

subsection \<open>Example runs\<close>

lemmas fixture_defs = init_def answering_def tokens_body_def success_body_def denied_body_def
  no_token_body_def page_fields_def lag_def world0_def

lemmas run_defs = modify_page_def get_token_def token_of_response_def token_path_def
  error_info_def edit_result_def leave_def token_url_def anon_token_def THROTTLE_def
  events_since_def emit_def await_def setitem_def fsub_def Let_def

text \<open>
  An anonymous edit at clock 3 with the timestamp still 0: the call waits for 7 seconds
  (the sleep takes 7.5), stamps 10.5, injects the three fields and posts.
\<close>

lemma run_anon_denied:
  "modify_page (init ''w/api.php'' (answering tokens_body denied_body) False) ''edit'' 0 world0 =
     Some (Inl (EditError (JStr ''permissiondenied'')),
           \<lparr>url = ''w/api.php'', session = answering tokens_body denied_body,
              logged_in = False, lock_edit = False, last_edit = 21 / 2\<rparr>,
           \<lparr>clock = 25 / 2, elapse = lag,
              heap = (\<lambda>r. [])(0 := page_fields @
                [(''action'', JStr ''edit''), (''format'', JStr ''json''),
                 (''token'', JStr anon_token)]),
              trace =
                [Acquire, Print 7 ''edit'', Sleep 7,
                 Post ''w/api.php''
                   (page_fields @
                    [(''action'', JStr ''edit''), (''format'', JStr ''json''),
                     (''token'', JStr anon_token)]),
                 Release]\<rparr>)"
  by (simp add: fixture_defs run_defs)

lemma run_anon_success:
  "modify_page (init ''w/api.php'' (answering tokens_body success_body) False) ''edit'' 0 world0 =
     Some (Inr True,
           \<lparr>url = ''w/api.php'', session = answering tokens_body success_body,
              logged_in = False, lock_edit = False, last_edit = 21 / 2\<rparr>,
           \<lparr>clock = 25 / 2, elapse = lag,
              heap = (\<lambda>r. [])(0 := page_fields @
                [(''action'', JStr ''edit''), (''format'', JStr ''json''),
                 (''token'', JStr anon_token)]),
              trace =
                [Acquire, Print 7 ''edit'', Sleep 7,
                 Post ''w/api.php''
                   (page_fields @
                    [(''action'', JStr ''edit''), (''format'', JStr ''json''),
                     (''token'', JStr anon_token)]),
                 Release]\<rparr>)"
  by (simp add: fixture_defs run_defs)

text \<open>The same edit by a logged-in client: the token is fetched after the wait.\<close>

lemma run_auth_success:
  "modify_page (init ''w/api.php'' (answering tokens_body success_body) True) ''edit'' 0 world0 =
     Some (Inr True,
           \<lparr>url = ''w/api.php'', session = answering tokens_body success_body,
              logged_in = True, lock_edit = False, last_edit = 21 / 2\<rparr>,
           \<lparr>clock = 27 / 2, elapse = lag,
              heap = (\<lambda>r. [])(0 := page_fields @
                [(''action'', JStr ''edit''), (''format'', JStr ''json''),
                 (''token'', JStr ''6f1d'')]),
              trace =
                [Acquire, Print 7 ''edit'', Sleep 7,
                 Get ''w/api.php?action=query&meta=tokens&type=csrf&format=json'',
                 Post ''w/api.php''
                   (page_fields @
                    [(''action'', JStr ''edit''), (''format'', JStr ''json''),
                     (''token'', JStr ''6f1d'')]),
                 Release]\<rparr>)"
  by (simp add: fixture_defs run_defs)

subsection \<open>\<^verbatim>\<open>get_token\<close> and the client\<close>

text \<open>
  Claim C8. \<^verbatim>\<open>get_token\<close> leaves the client as it was: \<open>url\<close>, \<open>logged_in\<close>,
  \<open>last_edit\<close> and \<open>lock_edit\<close> are unchanged. Its only event is the GET of the
  token URL: it does not enter the lock, and it writes no timestamp and no dict.
\<close>

theorem get_token_keeps_client:
  "(case get_token self type' w of
      (r, self', w') \<Rightarrow>
        self' = self \<and>
        url self' = url self \<and> logged_in self' = logged_in self \<and>
        last_edit self' = last_edit self \<and> lock_edit self' = lock_edit self \<and>
        events_since w w' = [Get (token_url (url self) type')] \<and>
        Acquire \<notin> set (events_since w w') \<and>
        heap w' = heap w)"
  by (simp add: get_token_eq events_since_def)

subsection \<open>What \<^verbatim>\<open>get_token\<close> returns and raises\<close>

lemma token_path_Inr:
  "(token_path ty data = Inr tok) =
     (\<exists>q t. getitem data ''query'' = Inr q \<and> getitem q ''tokens'' = Inr t \<and>
            getitem t (ty @ ''token'') = Inr tok)"
  by (auto simp add: token_path_def split: sum.splits)

lemma token_path_KeyError:
  "(\<exists>k. token_path ty data = Inl (KeyError k)) =
     ((\<exists>k. getitem data ''query'' = Inl (KeyError k)) \<or>
      (\<exists>q. getitem data ''query'' = Inr q \<and>
         ((\<exists>k. getitem q ''tokens'' = Inl (KeyError k)) \<or>
          (\<exists>t. getitem q ''tokens'' = Inr t \<and>
             (\<exists>k. getitem t (ty @ ''token'') = Inl (KeyError k))))))"
  by (auto simp add: token_path_def split: sum.splits)

text \<open>
  What the code does with a parsed body \<open>data\<close>: it returns \<open>tok\<close> exactly when
  \<^verbatim>\<open>data["query"]["tokens"][f"{type}token"]\<close> is present and is \<open>tok\<close>, and it raises
  \<open>TokenGetError info\<close> exactly when a key of that path is missing from the dict it
  is looked up in and \<^verbatim>\<open>data["error"]["info"]\<close> is present and is \<open>info\<close>.
\<close>

lemma get_token_result:
  assumes resp: "get (session self) (token_url (url self) type') = Some data"
  shows "(\<forall>tok. (fst (get_token self type' w) = Inr tok) =
            (\<exists>q t. getitem data ''query'' = Inr q \<and> getitem q ''tokens'' = Inr t \<and>
                   getitem t (type' @ ''token'') = Inr tok)) \<and>
         (\<forall>info. (fst (get_token self type' w) = Inl (TokenGetError info)) =
            (((\<exists>k. getitem data ''query'' = Inl (KeyError k)) \<or>
              (\<exists>q. getitem data ''query'' = Inr q \<and>
                 ((\<exists>k. getitem q ''tokens'' = Inl (KeyError k)) \<or>
                  (\<exists>t. getitem q ''tokens'' = Inr t \<and>
                     (\<exists>k. getitem t (type' @ ''token'') = Inl (KeyError k)))))) \<and>
             (\<exists>err. getitem data ''error'' = Inr err \<and> getitem err ''info'' = Inr info)))"
proof -
  have res: "fst (get_token self type' w) = token_of_response type' data"
    using resp by (simp add: get_token_eq)
  have ok: "(token_of_response type' data = Inr tok) = (token_path type' data = Inr tok)" for tok
    by (auto simp add: token_of_response_def split: sum.splits error.splits)
  have bad: "(token_of_response type' data = Inl (TokenGetError info)) =
               ((\<exists>k. token_path type' data = Inl (KeyError k)) \<and>
                (\<exists>err. getitem data ''error'' = Inr err \<and> getitem err ''info'' = Inr info))"
    for info
    by (auto simp add: token_of_response_def error_info_def split: sum.splits error.splits
        dest: token_path_error getitem_error)
  show ?thesis
    unfolding res ok bad token_path_Inr token_path_KeyError by blast
qed

text \<open>
  Claim C5. \<^verbatim>\<open>get_token\<close> returns the token at
  \<^verbatim>\<open>data["query"]["tokens"][f"{type}token"]\<close> when that path is present, and is to fail
  with TokenGetError whenever it is absent. The code does not: when the token request
  for \<open>csrf\<close> is answered with \<^verbatim>\<open>{"batchcomplete": "", "query": {"tokens": {}}}\<close>,
  a payload without the token field, the \<^verbatim>\<open>try\<close> raises \<^verbatim>\<open>KeyError('csrftoken')\<close>,
  the handler of line 32 evaluates \<^verbatim>\<open>data["error"]\<close>, and \<^verbatim>\<open>KeyError('error')\<close> leaves
  \<^verbatim>\<open>get_token\<close> in place of TokenGetError.
\<close>

theorem get_token_missing_token_field:
  "token_path ''csrf'' no_token_body = Inl (KeyError ''csrftoken'') \<and>
   error_info no_token_body = Inl (KeyError ''error'') \<and>
   fst (get_token (init ''w/api.php'' (answering no_token_body success_body) True) ''csrf'' world0)
   = Inl (KeyError ''error'')"
  by (simp add: fixture_defs run_defs)

subsection \<open>The outcome of a submission\<close>

text \<open>
  Claim C1, amended. A call that finds the lock free returns. When the answer to its
  POST is a JSON object, the call raises \<open>EditError x\<close> exactly when the object has
  an \<open>error\<close> entry that is truthy and whose \<open>info\<close> entry is \<open>x\<close>; when the
  \<open>error\<close> entry is missing or falsy (\<^verbatim>\<open>None\<close>, \<^verbatim>\<open>False\<close>, 0, an empty string,
  list or dict) the call returns \<^verbatim>\<open>True\<close>.
\<close>

theorem modify_page_edit_error:
  assumes free: "\<not> lock_edit self"
  shows "\<exists>r self' w'. modify_page self action json w = Some (r, self', w') \<and>
           (\<forall>u d kvs. Post u d \<in> set (events_since w w') \<longrightarrow>
                      post (session self) u d = Some (JObj kvs) \<longrightarrow>
              (\<forall>x. (r = Inl (EditError x)) =
                    (\<exists>err. map_of kvs ''error'' = Some err \<and> truthy err \<and>
                           getitem err ''info'' = Inr x)) \<and>
              ((map_of kvs ''error'' = None \<or>
                (\<exists>err. map_of kvs ''error'' = Some err \<and> \<not> truthy err)) \<longrightarrow>
               r = Inr True))"
proof -
  from modify_page_returns [OF free]
  obtain r self' w' where run: "modify_page self action json w = Some (r, self', w')"
    by blast
  have "(\<forall>x. (r = Inl (EditError x)) =
               (\<exists>err. map_of kvs ''error'' = Some err \<and> truthy err \<and>
                      getitem err ''info'' = Inr x)) \<and>
        ((map_of kvs ''error'' = None \<or>
           (\<exists>err. map_of kvs ''error'' = Some err \<and> \<not> truthy err)) \<longrightarrow>
          r = Inr True)"
    if sent: "Post u d \<in> set (events_since w w')"
      and resp: "post (session self) u d = Some (JObj kvs)" for u d kvs
  proof -
    from modify_page_submission [OF run sent] resp
    have "r = edit_result (JObj kvs)" by simp
    then show ?thesis
      by (auto simp add: edit_result_obj split: option.splits sum.splits dest: getitem_error)
  qed
  with run show ?thesis by blast
qed

text \<open>
  The response of property P5, \<^verbatim>\<open>{"error": {"info": "permissiondenied"}}\<close>, raises
  \<^verbatim>\<open>EditError("permissiondenied")\<close>; \<^verbatim>\<open>{"edit": {"result": "Success"}}\<close> returns
  \<^verbatim>\<open>True\<close>.
\<close>

theorem modify_page_edit_error_witness:
  "\<not> lock_edit (init ''w/api.php'' (answering tokens_body denied_body) False) \<and>
   map_option fst
     (modify_page (init ''w/api.php'' (answering tokens_body denied_body) False) ''edit'' 0 world0)
   = Some (Inl (EditError (JStr ''permissiondenied''))) \<and>
   map_option fst
     (modify_page (init ''w/api.php'' (answering tokens_body success_body) False) ''edit'' 0 world0)
   = Some (Inr True)"
proof -
  let ?deny = "init ''w/api.php'' (answering tokens_body denied_body) False"
  let ?ok = "init ''w/api.php'' (answering tokens_body success_body) False"
  let ?d = "page_fields @ [(''action'', JStr ''edit''), (''format'', JStr ''json''),
                           (''token'', JStr anon_token)]"
  have free: "\<not> lock_edit ?deny" "\<not> lock_edit ?ok"
    by (simp_all add: init_def)
  from modify_page_edit_error [OF free(1), of "''edit''" 0 world0]
  obtain r1 c1 w1 where
    run1: "modify_page ?deny ''edit'' 0 world0 = Some (r1, c1, w1)" and
    res1: "\<forall>u d kvs. Post u d \<in> set (events_since world0 w1) \<longrightarrow>
             post (session ?deny) u d = Some (JObj kvs) \<longrightarrow>
             (\<forall>x. (r1 = Inl (EditError x)) =
               (\<exists>err. map_of kvs ''error'' = Some err \<and> truthy err \<and>
                      getitem err ''info'' = Inr x)) \<and>
              ((map_of kvs ''error'' = None \<or>
                (\<exists>err. map_of kvs ''error'' = Some err \<and> \<not> truthy err)) \<longrightarrow>
               r1 = Inr True)"
    by (elim exE conjE)
  from modify_page_edit_error [OF free(2), of "''edit''" 0 world0]
  obtain r2 c2 w2 where
    run2: "modify_page ?ok ''edit'' 0 world0 = Some (r2, c2, w2)" and
    res2: "\<forall>u d kvs. Post u d \<in> set (events_since world0 w2) \<longrightarrow>
             post (session ?ok) u d = Some (JObj kvs) \<longrightarrow>
             (\<forall>x. (r2 = Inl (EditError x)) =
               (\<exists>err. map_of kvs ''error'' = Some err \<and> truthy err \<and>
                      getitem err ''info'' = Inr x)) \<and>
              ((map_of kvs ''error'' = None \<or>
                (\<exists>err. map_of kvs ''error'' = Some err \<and> \<not> truthy err)) \<longrightarrow>
               r2 = Inr True)"
    by (elim exE conjE)
  have "trace w1 = [Acquire, Print 7 ''edit'', Sleep 7, Post ''w/api.php'' ?d, Release]"
    using run1 by (auto simp add: run_anon_denied)
  then have sent1: "Post ''w/api.php'' ?d \<in> set (events_since world0 w1)"
    by (simp add: events_since_def world0_def)
  have "trace w2 = [Acquire, Print 7 ''edit'', Sleep 7, Post ''w/api.php'' ?d, Release]"
    using run2 by (auto simp add: run_anon_success)
  then have sent2: "Post ''w/api.php'' ?d \<in> set (events_since world0 w2)"
    by (simp add: events_since_def world0_def)
  have resp1: "post (session ?deny) ''w/api.php'' ?d =
                 Some (JObj [(''error'', JObj [(''info'', JStr ''permissiondenied'')])])"
    by (simp add: init_def answering_def denied_body_def)
  have resp2: "post (session ?ok) ''w/api.php'' ?d =
                 Some (JObj [(''edit'', JObj [(''result'', JStr ''Success'')])])"
    by (simp add: init_def answering_def success_body_def)
  from res1 sent1 resp1
  have "(r1 = Inl (EditError (JStr ''permissiondenied''))) =
          (\<exists>err. map_of [(''error'', JObj [(''info'', JStr ''permissiondenied'')])] ''error''
                    = Some err
             \<and> truthy err \<and> getitem err ''info'' = Inr (JStr ''permissiondenied''))"
    by blast
  then have r1: "r1 = Inl (EditError (JStr ''permissiondenied''))"
    by simp
  from res2 sent2 resp2
  have "map_of [(''edit'', JObj [(''result'', JStr ''Success'')])] ''error'' = None \<or>
          (\<exists>err. map_of [(''edit'', JObj [(''result'', JStr ''Success'')])] ''error'' = Some err
             \<and> \<not> truthy err) \<longrightarrow> r2 = Inr True"
    by blast
  then have r2: "r2 = Inr True"
    by simp
  show ?thesis
    using run1 run2 free r1 r2 by simp
qed

text \<open>
  The claim as first stated fails: \<^verbatim>\<open>{"error": {}}\<close> has a top-level \<open>error\<close> entry
  and the call returns \<^verbatim>\<open>True\<close>; \<^verbatim>\<open>{"error": {"code": "ratelimited"}}\<close> has one
  and the call raises KeyError, not EditError; the response \<^verbatim>\<open>[]\<close> has none and the
  call raises AttributeError instead of returning \<^verbatim>\<open>True\<close>.
\<close>

theorem modify_page_edit_error_counterexample:
  "map_option fst
     (modify_page (init ''w/api.php'' (answering tokens_body (JObj [(''error'', JObj [])])) False)
        ''edit'' 0 world0)
   = Some (Inr True) \<and>
   map_option fst
     (modify_page
        (init ''w/api.php'' (answering tokens_body (JObj [(''error'', JObj [(''code'', JStr ''ratelimited'')])])) False)
        ''edit'' 0 world0)
   = Some (Inl (KeyError ''info'')) \<and>
   map_option fst
     (modify_page (init ''w/api.php'' (answering tokens_body (JArr [])) False) ''edit'' 0 world0)
   = Some (Inl AttributeError)"
  by (simp add: fixture_defs run_defs)

subsection \<open>Where the token comes from\<close>

lemma map_of_injected:
  "map_of (AList.update ''token'' tok
            (AList.update ''format'' (JStr ''json'')
              (AList.update ''action'' (JStr action) fs))) =
   (map_of fs)(''action'' \<mapsto> JStr action, ''format'' \<mapsto> JStr ''json'', ''token'' \<mapsto> tok)"
  by (simp add: update_conv')

text \<open>
  Claim C2. A call that finds the lock free returns. If the client is logged in, the
  call makes the GET of the token URL for type \<open>csrf\<close>, and no POST comes before it;
  either the request fails, and then the caller's dict is untouched and nothing is
  posted, or the token it yields is the one injected and posted. If the client is
  anonymous,
  the call makes no GET at all, and the token injected and posted is the placeholder
  \<^verbatim>\<open>"+\\"\<close>. (The value of \<^verbatim>\<open>get_token\<close> does not depend on the world it is called
  in.)
\<close>

theorem modify_page_token_source:
  assumes free: "\<not> lock_edit self"
  shows "\<exists>r self' w'. modify_page self action json w = Some (r, self', w') \<and>
     (if logged_in self
      then (\<exists>pre tail.
              events_since w w' = pre @ Get (token_url (url self) ''csrf'') # tail \<and>
              (\<forall>u d. Post u d \<notin> set pre) \<and>
              ((tail = [Release] \<and> heap w' = heap w \<and>
                (\<exists>e. fst (get_token self ''csrf'' w) = Inl e \<and> r = Inl e)) \<or>
               (\<exists>tok. fst (get_token self ''csrf'' w) = Inr tok \<and>
                      map_of (heap w' json) ''token'' = Some tok \<and>
                      tail = [Post (url self) (heap w' json), Release])))
      else ((\<forall>u. Get u \<notin> set (events_since w w')) \<and>
            map_of (heap w' json) ''token'' = Some (JStr anon_token) \<and>
            Post (url self) (heap w' json) \<in> set (events_since w w')))"
proof -
  from modify_page_returns [OF free]
  obtain r self' w' where run: "modify_page self action json w = Some (r, self', w')"
    by blast
  let ?wait = "if fsub (clock w) (last_edit self) < THROTTLE
               then [Print (fsub THROTTLE (fsub (clock w) (last_edit self))) action,
                     Sleep (fsub THROTTLE (fsub (clock w) (last_edit self)))] else []"
  from modify_page_events [OF run]
  obtain tail where
    evs: "events_since w w' =
            Acquire # ?wait @ (if logged_in self then [Get (token_url (url self) ''csrf'')] else []) @ tail"
    and alt: "(tail = [Release] \<and> heap w' = heap w \<and> logged_in self \<and>
               (\<exists>e. r = Inl e \<and> fst (get_token self ''csrf'' w) = Inl e))
            \<or> (\<exists>tok. tail = [Post (url self) (heap w' json), Release] \<and>
                 heap w' = (heap w)(json := AList.update ''token'' tok
                    (AList.update ''format'' (JStr ''json'')
                      (AList.update ''action'' (JStr action) (heap w json)))) \<and>
                 (if logged_in self
                  then fst (get_token self ''csrf'' w) = Inr tok
                  else tok = JStr anon_token) \<and>
                 r = (case post (session self) (url self) (heap w' json) of
                        None \<Rightarrow> Inl ClientError | Some data \<Rightarrow> edit_result data))"
    by blast
  show ?thesis
  proof (cases "logged_in self")
    case True
    have pre: "events_since w w' = (Acquire # ?wait) @ Get (token_url (url self) ''csrf'') # tail"
      using evs True by simp
    have nopost: "\<forall>u d. Post u d \<notin> set (Acquire # ?wait)"
      by simp
    have "(tail = [Release] \<and> heap w' = heap w \<and>
            (\<exists>e. fst (get_token self ''csrf'' w) = Inl e \<and> r = Inl e)) \<or>
          (\<exists>tok. fst (get_token self ''csrf'' w) = Inr tok \<and>
                 map_of (heap w' json) ''token'' = Some tok \<and>
                 tail = [Post (url self) (heap w' json), Release])"
      using alt True by (auto simp add: map_of_injected)
    with pre nopost
    have "\<exists>pre tail.
            events_since w w' = pre @ Get (token_url (url self) ''csrf'') # tail \<and>
            (\<forall>u d. Post u d \<notin> set pre) \<and>
            ((tail = [Release] \<and> heap w' = heap w \<and>
              (\<exists>e. fst (get_token self ''csrf'' w) = Inl e \<and> r = Inl e)) \<or>
             (\<exists>tok. fst (get_token self ''csrf'' w) = Inr tok \<and>
                    map_of (heap w' json) ''token'' = Some tok \<and>
                    tail = [Post (url self) (heap w' json), Release]))"
      by (intro exI [of _ "Acquire # ?wait"] exI [of _ tail] conjI)
    with run True show ?thesis
      by simp
  next
    case False
    from alt False obtain tok where
      tail: "tail = [Post (url self) (heap w' json), Release]" and
      hp: "heap w' = (heap w)(json := AList.update ''token'' tok
                    (AList.update ''format'' (JStr ''json'')
                      (AList.update ''action'' (JStr action) (heap w json))))" and
      tok: "tok = JStr anon_token"
      by auto
    have "\<forall>u. Get u \<notin> set (events_since w w')"
      using evs False tail by simp
    moreover have "map_of (heap w' json) ''token'' = Some (JStr anon_token)"
      by (subst hp) (simp add: tok map_of_injected)
    moreover have "Post (url self) (heap w' json) \<in> set (events_since w w')"
      using evs False tail by simp
    ultimately show ?thesis
      using run False by simp
  qed
qed

theorem modify_page_token_source_witness:
  "\<not> lock_edit (init ''w/api.php'' (answering tokens_body success_body) True) \<and>
   \<not> lock_edit (init ''w/api.php'' (answering tokens_body success_body) False) \<and>
   (\<exists>r c w'.
      modify_page (init ''w/api.php'' (answering tokens_body success_body) True) ''edit'' 0 world0
        = Some (r, c, w') \<and>
      events_since world0 w' =
        [Acquire, Print 7 ''edit'', Sleep 7,
         Get ''w/api.php?action=query&meta=tokens&type=csrf&format=json'',
         Post ''w/api.php'' (heap w' 0), Release] \<and>
      map_of (heap w' 0) ''token'' = Some (JStr ''6f1d'')) \<and>
   (\<exists>r c w'.
      modify_page (init ''w/api.php'' (answering tokens_body success_body) False) ''edit'' 0 world0
        = Some (r, c, w') \<and>
      events_since world0 w' =
        [Acquire, Print 7 ''edit'', Sleep 7, Post ''w/api.php'' (heap w' 0), Release] \<and>
      map_of (heap w' 0) ''token'' = Some (JStr [CHR ''+'', CHR 0x5C]))"
proof -
  let ?auth = "init ''w/api.php'' (answering tokens_body success_body) True"
  let ?anon = "init ''w/api.php'' (answering tokens_body success_body) False"
  have free: "\<not> lock_edit ?auth" "\<not> lock_edit ?anon"
    by (simp_all add: init_def)
  have tok: "fst (get_token ?auth ''csrf'' world0) = Inr (JStr ''6f1d'')"
    by (simp add: fixture_defs run_defs)
  from modify_page_token_source [OF free(1), of "''edit''" 0 world0]
  obtain r1 c1 w1 where
    run1: "modify_page ?auth ''edit'' 0 world0 = Some (r1, c1, w1)" and
    src1: "\<exists>pre tail.
             events_since world0 w1 = pre @ Get (token_url (url ?auth) ''csrf'') # tail \<and>
             (\<forall>u d. Post u d \<notin> set pre) \<and>
             ((tail = [Release] \<and> heap w1 = heap world0 \<and>
               (\<exists>e. fst (get_token ?auth ''csrf'' world0) = Inl e \<and> r1 = Inl e)) \<or>
              (\<exists>tok. fst (get_token ?auth ''csrf'' world0) = Inr tok \<and>
                     map_of (heap w1 0) ''token'' = Some tok \<and>
                     tail = [Post (url ?auth) (heap w1 0), Release]))"
    by (auto simp add: init_def)
  from src1 tok have token1: "map_of (heap w1 0) ''token'' = Some (JStr ''6f1d'')"
    by auto
  have "trace w1 =
        [Acquire, Print 7 ''edit'', Sleep 7,
         Get ''w/api.php?action=query&meta=tokens&type=csrf&format=json'',
         Post ''w/api.php'' (heap w1 0), Release]"
    using run1 by (auto simp add: run_auth_success)
  then have evs1: "events_since world0 w1 =
        [Acquire, Print 7 ''edit'', Sleep 7,
         Get ''w/api.php?action=query&meta=tokens&type=csrf&format=json'',
         Post ''w/api.php'' (heap w1 0), Release]"
    by (simp add: events_since_def world0_def)
  from modify_page_token_source [OF free(2), of "''edit''" 0 world0]
  obtain r2 c2 w2 where
    run2: "modify_page ?anon ''edit'' 0 world0 = Some (r2, c2, w2)" and
    src2: "(\<forall>u. Get u \<notin> set (events_since world0 w2)) \<and>
           map_of (heap w2 0) ''token'' = Some (JStr anon_token) \<and>
           Post (url ?anon) (heap w2 0) \<in> set (events_since world0 w2)"
    by (auto simp add: init_def)
  from src2 have token2: "map_of (heap w2 0) ''token'' = Some (JStr [CHR ''+'', CHR 0x5C])"
    by (simp add: anon_token_def)
  have "trace w2 =
        [Acquire, Print 7 ''edit'', Sleep 7, Post ''w/api.php'' (heap w2 0), Release]"
    using run2 by (auto simp add: run_anon_success)
  then have evs2: "events_since world0 w2 =
        [Acquire, Print 7 ''edit'', Sleep 7, Post ''w/api.php'' (heap w2 0), Release]"
    by (simp add: events_since_def world0_def)
  show ?thesis
    using free run1 evs1 token1 run2 evs2 token2 by blast
qed

subsection \<open>The fields of the request\<close>






subsection \<open>Pacing\<close>

lemma modify_page_last_edit:
  assumes "modify_page self action json w = Some (r, self', w')"
  shows "last_edit self' = clock w +
           (if fsub (clock w) (last_edit self) < THROTTLE
            then elapse w (Sleep (fsub THROTTLE (fsub (clock w) (last_edit self)))) else 0)"
  using modify_page_client(2) [OF assms] by simp











text \<open>
  Claim C7, amended. Line 179 reads the clock again: when the call waits,
  \<open>last_edit\<close> is the clock after the sleep, the first read plus the time the sleep
  took; when it does not wait, nothing is awaited between the two reads.
\<close>

theorem last_edit_is_read_after_sleep:
  assumes run: "modify_page self action json w = Some (r, self', w')"
  shows "(if fsub (clock w) (last_edit self) < THROTTLE
          then last_edit self' =
                 clock w + elapse w (Sleep (fsub THROTTLE (fsub (clock w) (last_edit self)))) \<and>
               last_edit self' =
                 clock (await (Sleep (fsub THROTTLE (fsub (clock w) (last_edit self))))
                          (emit (Print (fsub THROTTLE (fsub (clock w) (last_edit self))) action)
                             (emit Acquire w)))
          else last_edit self' = clock w)"
  using modify_page_last_edit [OF run] by simp

theorem last_edit_is_read_after_sleep_witness:
  "(\<exists>r c w'.
      modify_page (init ''w/api.php'' (answering tokens_body success_body) True) ''edit'' 0 world0
        = Some (r, c, w') \<and>
      fsub (clock world0)
        (last_edit (init ''w/api.php'' (answering tokens_body success_body) True))
        < THROTTLE \<and>
      last_edit c = 3 + (7 + 1 / 2)) \<and>
   (\<exists>r c w'.
      modify_page (init ''w/api.php'' (answering tokens_body success_body) True) ''edit'' 0
        (world0\<lparr>clock := 12\<rparr>) = Some (r, c, w') \<and>
      \<not> fsub (clock (world0\<lparr>clock := 12\<rparr>))
          (last_edit (init ''w/api.php'' (answering tokens_body success_body) True))
        < THROTTLE \<and>
      last_edit c = 12)"
proof -
  let ?c = "init ''w/api.php'' (answering tokens_body success_body) True"
  let ?late = "world0\<lparr>clock := 12\<rparr>"
  have free: "\<not> lock_edit ?c"
    by (simp add: init_def)
  from modify_page_returns [OF free]
  obtain r c w' where run: "modify_page ?c ''edit'' 0 world0 = Some (r, c, w')"
    by blast
  have short: "fsub (clock world0) (last_edit ?c) < THROTTLE"
    by (simp add: world0_def init_def THROTTLE_def fsub_def)
  from last_edit_is_read_after_sleep [OF run] short
  have "last_edit c = clock world0 + elapse world0 (Sleep (fsub THROTTLE (fsub (clock world0) (last_edit ?c))))"
    by simp
  then have "last_edit c = 3 + (7 + 1 / 2)"
    by (simp add: world0_def init_def THROTTLE_def lag_def fsub_def)
  with run short have waiting:
    "\<exists>r c w'. modify_page ?c ''edit'' 0 world0 = Some (r, c, w') \<and>
       fsub (clock world0) (last_edit ?c) < THROTTLE \<and> last_edit c = 3 + (7 + 1 / 2)"
    by blast
  from modify_page_returns [OF free]
  obtain r' c' w'' where run': "modify_page ?c ''edit'' 0 ?late = Some (r', c', w'')"
    by blast
  have long: "\<not> fsub (clock ?late) (last_edit ?c) < THROTTLE"
    by (simp add: init_def THROTTLE_def fsub_def)
  from last_edit_is_read_after_sleep [OF run'] long
  have "last_edit c' = clock ?late"
    by simp
  then have "last_edit c' = 12"
    by simp
  with run' long have direct:
    "\<exists>r c w'. modify_page ?c ''edit'' 0 ?late = Some (r, c, w') \<and>
       \<not> fsub (clock ?late) (last_edit ?c) < THROTTLE \<and> last_edit c = 12"
    by blast
  from waiting direct show ?thesis
    by (rule conjI)
qed

text \<open>
  The claim as first stated fails: the read used for the elapsed-time check is 3, and
  that read plus the remaining delta is 10, but the timestamp recorded is 10.5, the
  clock after a sleep that took half a second longer than asked.
\<close>

theorem last_edit_same_read_counterexample:
  "clock world0 = 3 \<and>
   clock world0 +
     fsub THROTTLE
       (fsub (clock world0)
          (last_edit (init ''w/api.php'' (answering tokens_body success_body) True)))
     = 10 \<and>
   map_option (last_edit \<circ> fst \<circ> snd)
     (modify_page (init ''w/api.php'' (answering tokens_body success_body) True) ''edit'' 0 world0)
   = Some (21 / 2)"
  by (simp add: run_auth_success) (simp add: world0_def init_def THROTTLE_def fsub_def)



end
